theory Spec2Isabelle
  imports Complex_Main
begin

section \<open>Numbers of the script\<close>

text \<open>
  The fields of a loan and every intermediate value of module03.ts have the TypeScript
  type \<open>number\<close>, a binary64 floating-point number. A number is modelled as one of
  the special values (\<open>NaN\<close>, the two infinities, the negative zero) or a finite value
  \<open>Fin r\<close> with its real value \<open>r\<close>; \<open>Fin 0\<close> is the positive zero. Every arithmetic
  operation computes the exact real result and rounds it to the nearest binary64 value,
  ties to the even significand, with overflow to an infinity and underflow to a
  subnormal number or a zero: \<open>round64\<close> below. The special cases of every operator
  (division by a zero, the sign of a zero, infinities, \<open>NaN\<close>) follow the ECMAScript
  operations \<open>Number::multiply\<close>, \<open>Number::divide\<close>, \<open>Number::add\<close>, \<open>Number::subtract\<close>,
  \<open>Number::exponentiate\<close> case by case.
\<close>

datatype number = NaN | PosInf | NegInf | NegZero | Fin real

fun isNaN :: "number \<Rightarrow> bool" where
  "isNaN NaN = True"
| "isNaN _ = False"

fun is_inf :: "number \<Rightarrow> bool" where
  "is_inf PosInf = True"
| "is_inf NegInf = True"
| "is_inf _ = False"

fun is_finite :: "number \<Rightarrow> bool" where
  "is_finite NegZero = True"
| "is_finite (Fin r) = True"
| "is_finite _ = False"

text \<open>The mathematical value of a finite number; both zeros have the value 0.\<close>

fun val :: "number \<Rightarrow> real" where
  "val (Fin r) = r"
| "val _ = 0"

fun is_zero :: "number \<Rightarrow> bool" where
  "is_zero NegZero = True"
| "is_zero (Fin r) = (r = 0)"
| "is_zero _ = False"

text \<open>The sign bit: true for the negative infinity, the negative zero and negative values.\<close>

fun sign :: "number \<Rightarrow> bool" where
  "sign NegInf = True"
| "sign NegZero = True"
| "sign (Fin r) = (r < 0)"
| "sign _ = False"

definition inf :: "bool \<Rightarrow> number" where
  "inf s = (if s then NegInf else PosInf)"

text \<open>The integer nearest to \<open>y\<close>, the even one of two equally near.\<close>

definition round_even :: "real \<Rightarrow> int" where
  "round_even y =
     (let f = \<lfloor>y\<rfloor>; d = y - of_int f
      in if d < 1 / 2 then f
         else if d > 1 / 2 then f + 1
         else if even f then f else f + 1)"

text \<open>
  The binary64 number for a real \<open>x\<close>. A number with the binary exponent \<open>e\<close>
  (at least -1022, where the subnormal numbers begin) is a multiple of \<open>2\<close> to the
  \<open>e - 52\<close>; \<open>x\<close> is rounded to the nearest multiple. A result of \<open>2 ^ 1024\<close> or more
  is an infinity, a result of zero keeps the sign of \<open>x\<close>.
\<close>

definition round64 :: "real \<Rightarrow> number" where
  "round64 x =
     (if x = 0 then Fin 0
      else
        let a = \<bar>x\<bar>;
            e = max \<lfloor>log 2 a\<rfloor> (- 1022);
            u = 2 powi (e - 52);
            m = round_even (a / u);
            v = of_int m * u
        in if v \<ge> 2 ^ 1024 then inf (x < 0)
           else if m = 0 then (if x < 0 then NegZero else Fin 0)
           else Fin (if x < 0 then - v else v))"

text \<open>
  The finite result of an operation with the exact value \<open>r\<close>: rounded, and when \<open>r\<close> is
  zero, the zero whose sign \<open>s\<close> gives.
\<close>

definition fin :: "bool \<Rightarrow> real \<Rightarrow> number" where
  "fin s r = (if r = 0 then (if s then NegZero else Fin 0) else round64 r)"

definition multiply :: "number \<Rightarrow> number \<Rightarrow> number" where
  "multiply x y =
     (if isNaN x \<or> isNaN y then NaN
      else if is_inf x \<or> is_inf y then
        (if is_zero x \<or> is_zero y then NaN else inf (sign x \<noteq> sign y))
      else fin (sign x \<noteq> sign y) (val x * val y))"

definition divide_num :: "number \<Rightarrow> number \<Rightarrow> number" where
  "divide_num x y =
     (if isNaN x \<or> isNaN y then NaN
      else if is_inf x then (if is_inf y then NaN else inf (sign x \<noteq> sign y))
      else if is_inf y then fin (sign x \<noteq> sign y) 0
      else if is_zero y then (if is_zero x then NaN else inf (sign x \<noteq> sign y))
      else fin (sign x \<noteq> sign y) (val x / val y))"

definition add :: "number \<Rightarrow> number \<Rightarrow> number" where
  "add x y =
     (if isNaN x \<or> isNaN y then NaN
      else if is_inf x then (if is_inf y \<and> x \<noteq> y then NaN else x)
      else if is_inf y then y
      else if x = NegZero \<and> y = NegZero then NegZero
      else fin False (val x + val y))"

fun unaryMinus :: "number \<Rightarrow> number" where
  "unaryMinus NaN = NaN"
| "unaryMinus PosInf = NegInf"
| "unaryMinus NegInf = PosInf"
| "unaryMinus NegZero = Fin 0"
| "unaryMinus (Fin r) = (if r = 0 then NegZero else Fin (- r))"

definition subtract :: "number \<Rightarrow> number \<Rightarrow> number" where
  "subtract x y = add x (unaryMinus y)"

definition integral :: "number \<Rightarrow> bool" where
  "integral e = (is_finite e \<and> real_of_int \<lfloor>val e\<rfloor> = val e)"

definition odd_integral :: "number \<Rightarrow> bool" where
  "odd_integral e = (integral e \<and> odd \<lfloor>val e\<rfloor>)"

text \<open>
  \<open>Math.pow(base, exponent)\<close>, the steps of \<open>Number::exponentiate\<close> in their order. The
  last step is the real power, an integer power when the exponent is integral and
  \<open>powr\<close> for a positive base otherwise. The language leaves the accuracy of that step
  to the implementation; here it is the binary64 number nearest to the real power.
\<close>

definition pow :: "number \<Rightarrow> number \<Rightarrow> number" where
  "pow b e =
     (if isNaN e then NaN
      else if is_zero e then Fin 1
      else if isNaN b then NaN
      else if b = PosInf then (if \<not> sign e then PosInf else Fin 0)
      else if b = NegInf then
        (if \<not> sign e then (if odd_integral e then NegInf else PosInf)
         else (if odd_integral e then NegZero else Fin 0))
      else if b = Fin 0 then (if \<not> sign e then Fin 0 else PosInf)
      else if b = NegZero then
        (if \<not> sign e then (if odd_integral e then NegZero else Fin 0)
         else (if odd_integral e then NegInf else PosInf))
      else if e = PosInf then
        (if \<bar>val b\<bar> > 1 then PosInf else if \<bar>val b\<bar> = 1 then NaN else Fin 0)
      else if e = NegInf then
        (if \<bar>val b\<bar> > 1 then Fin 0 else if \<bar>val b\<bar> = 1 then NaN else PosInf)
      else if integral e then round64 (val b powi \<lfloor>val e\<rfloor>)
      else if val b < 0 then NaN
      else round64 (val b powr val e))"

section \<open>Number.prototype.toFixed\<close>

datatype error = RangeError | ReferenceError

text \<open>The decimal digits of a natural number, most significant first.\<close>

fun digits :: "nat \<Rightarrow> string" where
  "digits n =
     (if n < 10 then [''0123456789'' ! n]
      else digits (n div 10) @ [''0123456789'' ! (n mod 10)])"

declare digits.simps [simp del]

text \<open>\<open>Number::toString\<close> of a number that is not finite.\<close>

fun toString_nonfinite :: "number \<Rightarrow> string" where
  "toString_nonfinite PosInf = ''Infinity''"
| "toString_nonfinite NegInf = ''-Infinity''"
| "toString_nonfinite _ = ''NaN''"

text \<open>
  The digits of \<open>toFixed\<close> for the integer \<open>n\<close> and \<open>f\<close> fraction digits: \<open>n\<close> in
  decimal, padded on the left with zeros to \<open>f + 1\<close> digits when it has \<open>f\<close> digits or
  fewer, with a point before the last \<open>f\<close> digits; for \<open>f = 0\<close> the digits alone.
\<close>

definition point_digits :: "nat \<Rightarrow> nat \<Rightarrow> string" where
  "point_digits f n =
     (let m = digits n
      in if f \<noteq> 0 then
           let m = (if length m \<le> f then replicate (f + 1 - length m) CHR ''0'' @ m else m);
               k = length m
           in take (k - f) m @ ''.'' @ drop (k - f) m
         else m)"

text \<open>
  \<open>x.toFixed(fractionDigits)\<close>. Fraction digits outside 0 to 100 are a \<open>RangeError\<close>. A
  number that is not finite is printed by name. A finite one gives its sign, then the
  integer \<open>n\<close> nearest to \<open>\<bar>x\<bar> * 10 ^ f\<close> (the larger one of two equally near) as
  \<open>point_digits\<close> writes it. From \<open>10 ^ 21\<close> on the language prints \<open>Number::toString\<close>
  of the value instead, the shortest decimal that reads back as the same binary64 number,
  in exponent notation; that depends on the binary64 format and is the parameter \<open>ts\<close>
  here.
\<close>

definition toFixed :: "(real \<Rightarrow> string) \<Rightarrow> int \<Rightarrow> number \<Rightarrow> error + string" where
  "toFixed ts fractionDigits x =
     (if fractionDigits < 0 \<or> fractionDigits > 100 then Inl RangeError
      else if \<not> is_finite x then Inr (toString_nonfinite x)
      else
        let f = nat fractionDigits;
            s = (if val x < 0 then ''-'' else []);
            a = (if val x < 0 then - val x else val x)
        in if a \<ge> 10 ^ 21 then Inr (s @ ts a)
           else
             let n = nat \<lfloor>a * 10 ^ f + 1 / 2\<rfloor>
             in Inr (s @ point_digits f n))"

section \<open>module03.ts\<close>

record Loan =
  principle :: number
  interest :: number

record ConventionalLoan = Loan +
  months :: number

text \<open>
  The script keeps two module variables and writes to the console. A variable declared
  with \<open>let\<close> holds nothing before its declaration has run.
\<close>

record module_state =
  interestOnlyPayment :: "string option"
  conventionalPayment :: "string option"
  console :: "string list"

type_synonym 'a js = "module_state \<Rightarrow> (error + 'a) \<times> module_state"

text \<open>
  The value of the local variable \<open>payment\<close> of \<open>calculateInterestOnlyLoanPayment\<close> when
  the function reaches its \<open>return\<close>.
\<close>

definition interestOnly_payment :: "'a Loan_scheme \<Rightarrow> number" where
  "interestOnly_payment loan =
     (let interestRate = Loan.interest loan;
          interest = divide_num interestRate (Fin 1200);
          payment = multiply (principle loan) interest
      in payment)"

text \<open>
  The function: it reads its argument only, assigns its two local variables only, and
  returns the label followed by \<open>payment.toFixed(2)\<close>. The module state goes through
  unchanged. An object with further fields is accepted, as the interface type allows.
\<close>

definition calculateInterestOnlyLoanPayment ::
    "(real \<Rightarrow> string) \<Rightarrow> 'a Loan_scheme \<Rightarrow> string js" where
  "calculateInterestOnlyLoanPayment ts loan s =
     (case toFixed ts 2 (interestOnly_payment loan) of
        Inl e \<Rightarrow> (Inl e, s)
      | Inr t \<Rightarrow> (Inr (''The interest only loan payment is '' @ t), s))"

text \<open>
  The value of the local variable \<open>payment\<close> of \<open>calculateConventionalLoanPayment\<close> when
  the function reaches its \<open>return\<close>.
\<close>

definition conventional_payment :: "'a ConventionalLoan_scheme \<Rightarrow> number" where
  "conventional_payment loan =
     (let interestRate = Loan.interest loan;
          interest = divide_num interestRate (Fin 1200);
          payment =
            divide_num (multiply (principle loan) interest)
              (subtract (Fin 1) (pow (divide_num (Fin 1) (add (Fin 1) interest)) (months loan)))
      in payment)"

definition calculateConventionalLoanPayment ::
    "(real \<Rightarrow> string) \<Rightarrow> 'a ConventionalLoan_scheme \<Rightarrow> string js" where
  "calculateConventionalLoanPayment ts loan s =
     (case toFixed ts 2 (conventional_payment loan) of
        Inl e \<Rightarrow> (Inl e, s)
      | Inr t \<Rightarrow> (Inr (''The conventional loan payment is '' @ t), s))"

text \<open>\<open>console.log\<close> of a module variable; reading one that holds nothing is an error.\<close>

definition console_log :: "string option \<Rightarrow> unit js" where
  "console_log v s =
     (case v of
        None \<Rightarrow> (Inl ReferenceError, s)
      | Some t \<Rightarrow> (Inr (), s\<lparr>console := console s @ [t]\<rparr>))"

text \<open>The statements of the script after the two function declarations, in their order.\<close>

definition module03 :: "(real \<Rightarrow> string) \<Rightarrow> unit js" where
  "module03 ts s0 =
     (case calculateInterestOnlyLoanPayment ts
             \<lparr>principle = Fin 30000, interest = Fin 5\<rparr> s0 of
        (Inl e, s1) \<Rightarrow> (Inl e, s1)
      | (Inr v1, s1) \<Rightarrow>
          let s2 = s1\<lparr>interestOnlyPayment := Some v1\<rparr> in
          (case calculateConventionalLoanPayment ts
                  \<lparr>principle = Fin 30000, interest = Fin 5, months = Fin 180\<rparr> s2 of
             (Inl e, s3) \<Rightarrow> (Inl e, s3)
           | (Inr v2, s3) \<Rightarrow>
               let s4 = s3\<lparr>conventionalPayment := Some v2\<rparr> in
               (case console_log (interestOnlyPayment s4) s4 of
                  (Inl e, s5) \<Rightarrow> (Inl e, s5)
                | (Inr _, s5) \<Rightarrow> console_log (conventionalPayment s5) s5)))"

text \<open>The state in which the script starts.\<close>

definition initial_state :: module_state where
  "initial_state = \<lparr>interestOnlyPayment = None, conventionalPayment = None, console = []\<rparr>"

text \<open>The two operands of the division in \<open>calculateConventionalLoanPayment\<close>.\<close>

definition conventional_numerator :: "'a ConventionalLoan_scheme \<Rightarrow> number" where
  "conventional_numerator loan =
     multiply (principle loan) (divide_num (Loan.interest loan) (Fin 1200))"

definition conventional_denominator :: "'a ConventionalLoan_scheme \<Rightarrow> number" where
  "conventional_denominator loan =
     subtract (Fin 1)
       (pow (divide_num (Fin 1) (add (Fin 1) (divide_num (Loan.interest loan) (Fin 1200))))
          (months loan))"

section \<open>The formulas of the specification\<close>

text \<open>
  The two payment formulas as the specification writes them, over the real numbers:
  the monthly rate is the annual percentage divided by 1200, the interest-only payment
  is principal times rate over 1200, and the amortized payment divides principal times
  monthly rate by one minus \<open>(1 + monthlyRate)\<close> to the power \<open>- termMonths\<close>.
\<close>

definition spec_interestOnlyPayment :: "real \<Rightarrow> real \<Rightarrow> real" where
  "spec_interestOnlyPayment principalAmount annualInterestRatePercent =
     principalAmount * annualInterestRatePercent / 1200"

definition spec_amortizedPayment :: "real \<Rightarrow> real \<Rightarrow> int \<Rightarrow> real" where
  "spec_amortizedPayment principalAmount annualInterestRatePercent termMonths =
     (let monthlyRate = annualInterestRatePercent / 1200
      in (principalAmount * monthlyRate) / (1 - (1 + monthlyRate) powi (- termMonths)))"



text \<open>
  \<open>x\<close> approximates \<open>x0\<close> with the relative error \<open>h\<close>: it lies between
  \<open>x0 * (1 - h)\<close> and \<open>x0 / (1 - h)\<close>.
\<close>

definition rel_err :: "real \<Rightarrow> real \<Rightarrow> real \<Rightarrow> bool" where
  "rel_err h x0 x = (x0 * (1 - h) \<le> x \<and> x * (1 - h) \<le> x0)"

section \<open>Rounding to binary64\<close>

lemma round_even_near:
  assumes "of_int m - 1 / 2 < y" and "y < of_int m + 1 / 2"
  shows "round_even y = m"
proof (cases "of_int m \<le> y")
  case True
  then have f: "\<lfloor>y\<rfloor> = m" using assms by (simp add: floor_eq_iff)
  show ?thesis using assms by (simp add: round_even_def f Let_def)
next
  case False
  then have f: "\<lfloor>y\<rfloor> = m - 1" using assms by (simp add: floor_eq_iff)
  show ?thesis using assms False by (simp add: round_even_def f Let_def)
qed

lemma round_even_error: "\<bar>of_int (round_even y) - y\<bar> \<le> 1 / 2"
proof -
  have "of_int \<lfloor>y\<rfloor> \<le> y" "y < of_int \<lfloor>y\<rfloor> + 1" by linarith+
  then show ?thesis by (auto simp add: round_even_def Let_def)
qed

lemma exponent_eq:
  fixes x :: real
  assumes "2 powi e \<le> x" and "x < 2 powi (e + 1)"
  shows "\<lfloor>log 2 x\<rfloor> = e"
proof -
  have pos: "0 < x" using assms(1) by (rule less_le_trans [rotated]) simp
  have a: "(2::real) powr (of_int e) = 2 powi e"
    using powr_real_of_int' [of 2 e] by simp
  have b: "(2::real) powr (of_int e + 1) = 2 powi (e + 1)"
    using powr_real_of_int' [of 2 "e + 1"] by simp
  have "2 powr (of_int e) \<le> x" using assms(1) by (simp only: a)
  moreover have "x < 2 powr (of_int e + 1)" using assms(2) by (simp only: b)
  ultimately show ?thesis
    using floor_log_eq_powr_iff [OF pos, of 2 e] by simp
qed

lemma ulp_facts:
  fixes u :: real
  assumes "u = 2 powi (e - 52)"
  shows "0 < u" and "2 powi e = 2 ^ 52 * u" and "2 powi (e + 1) = 2 ^ 53 * u"
proof -
  show "0 < u" by (simp add: assms)
  have e: "e = 52 + (e - 52)" "e + 1 = 53 + (e - 52)" by simp_all
  have "(2::real) powi e = 2 powi (52 + (e - 52))" using e(1) by simp
  also have "\<dots> = 2 powi 52 * 2 powi (e - 52)" by (rule power_int_add) simp
  finally show "2 powi e = 2 ^ 52 * u" by (simp add: assms)
  have "(2::real) powi (e + 1) = 2 powi (53 + (e - 52))" by (rule arg_cong [OF e(2)])
  also have "\<dots> = 2 powi 53 * 2 powi (e - 52)" by (rule power_int_add) simp
  finally show "2 powi (e + 1) = 2 ^ 53 * u" by (simp add: assms)
qed

lemma powi2_less_cancel:
  assumes "(2::real) powi a < 2 powi b"
  shows "a < b"
proof (rule ccontr)
  assume "\<not> a < b"
  then have "b \<le> a" by simp
  then have "(2::real) powi b \<le> 2 powi a" by (intro power_int_increasing) simp_all
  with assms show False by simp
qed

lemma round64_normal:
  assumes "2 powi e \<le> \<bar>x\<bar>" and "\<bar>x\<bar> < 2 powi (e + 1)" and "- 1022 \<le> e" and "e \<le> 1022"
  shows "round64 x =
           Fin (if x < 0 then - (of_int (round_even (\<bar>x\<bar> / 2 powi (e - 52))) * 2 powi (e - 52))
                else of_int (round_even (\<bar>x\<bar> / 2 powi (e - 52))) * 2 powi (e - 52))"
    and "2 ^ 52 \<le> round_even (\<bar>x\<bar> / 2 powi (e - 52))"
    and "round_even (\<bar>x\<bar> / 2 powi (e - 52)) \<le> 2 ^ 53"
proof -
  define u :: real where "u = 2 powi (e - 52)"
  define m where "m = round_even (\<bar>x\<bar> / u)"
  note u = ulp_facts [OF u_def]
  have pos: "0 < \<bar>x\<bar>" using assms(1) by (rule less_le_trans [rotated]) simp
  then have nz: "x \<noteq> 0" by simp
  have ex: "max \<lfloor>log 2 \<bar>x\<bar>\<rfloor> (- 1022) = e"
    using exponent_eq [OF assms(1,2)] assms(3) by simp
  have near: "\<bar>of_int m - \<bar>x\<bar> / u\<bar> \<le> 1 / 2"
    unfolding m_def by (rule round_even_error)
  have "2 ^ 52 * u \<le> \<bar>x\<bar>" using assms(1) by (simp only: u(2))
  then have big: "2 ^ 52 \<le> \<bar>x\<bar> / u" using u(1) by (simp add: pos_le_divide_eq)
  have "\<bar>x\<bar> < 2 ^ 53 * u" using assms(2) by (simp only: u(3))
  then have small: "\<bar>x\<bar> / u < 2 ^ 53" using u(1) by (simp add: pos_divide_less_eq)
  have nb: "\<bar>x\<bar> / u - 1 / 2 \<le> of_int m" "of_int m \<le> \<bar>x\<bar> / u + 1 / 2"
    using near by (simp_all only: abs_diff_le_iff)
  have "(of_int (2 ^ 52 - 1) :: real) = 2 ^ 52 - 1" by simp
  also have "\<dots> < \<bar>x\<bar> / u - 1 / 2" using big by argo
  also have "\<dots> \<le> of_int m" by (rule nb(1))
  finally have "2 ^ 52 - 1 < m" by (simp only: of_int_less_iff)
  then have mlow: "m \<ge> 2 ^ 52" by simp
  have "(of_int m :: real) \<le> \<bar>x\<bar> / u + 1 / 2" by (rule nb(2))
  also have "\<dots> < 2 ^ 53 + 1" using small by argo
  also have "\<dots> = of_int (2 ^ 53 + 1)" by simp
  finally have "m < 2 ^ 53 + 1" by (simp only: of_int_less_iff)
  then have mhigh: "m \<le> 2 ^ 53" by simp
  then have "(of_int m :: real) \<le> of_int (2 ^ 53)" by (simp only: of_int_le_iff)
  then have "of_int m * u \<le> 2 ^ 53 * u" using u(1) by simp
  also have "\<dots> = 2 powi (e + 1)" by (simp only: u(3))
  also have "\<dots> \<le> 2 powi 1023" using assms(4) by (intro power_int_increasing) simp_all
  also have "\<dots> < (2::real) ^ 1024" by simp
  finally have nover: "\<not> of_int m * u \<ge> (2::real) ^ 1024" by simp
  have mnz: "m \<noteq> 0" using mlow by simp
  have "round64 x = Fin (if x < 0 then - (of_int m * u) else of_int m * u)"
    by (simp only: round64_def Let_def ex u_def [symmetric] m_def [symmetric]
          nz nover mnz if_False)
  then show "round64 x =
           Fin (if x < 0 then - (of_int (round_even (\<bar>x\<bar> / 2 powi (e - 52))) * 2 powi (e - 52))
                else of_int (round_even (\<bar>x\<bar> / 2 powi (e - 52))) * 2 powi (e - 52))"
    by (simp only: m_def u_def)
  show "2 ^ 52 \<le> round_even (\<bar>x\<bar> / 2 powi (e - 52))"
    using mlow by (simp only: m_def u_def)
  show "round_even (\<bar>x\<bar> / 2 powi (e - 52)) \<le> 2 ^ 53"
    using mhigh by (simp only: m_def u_def)
qed

lemma round64_eval:
  assumes "2 powi e \<le> \<bar>x\<bar>" and "\<bar>x\<bar> < 2 powi (e + 1)" and "- 1022 \<le> e" and "e \<le> 1022"
    and "of_int m - 1 / 2 < \<bar>x\<bar> / 2 powi (e - 52)"
    and "\<bar>x\<bar> / 2 powi (e - 52) < of_int m + 1 / 2"
  shows "round64 x =
           Fin (if x < 0 then - (of_int m * 2 powi (e - 52)) else of_int m * 2 powi (e - 52))"
  by (simp only: round64_normal(1) [OF assms(1-4)] round_even_near [OF assms(5,6)])

lemma round64_error:
  assumes "2 powi (- 1022) \<le> \<bar>x\<bar>" and "\<bar>x\<bar> < 2 ^ 1023"
  shows "\<exists>v. round64 x = Fin v \<and> \<bar>v - x\<bar> \<le> \<bar>x\<bar> / 2 ^ 53 \<and> (0 < v) = (0 < x)"
proof -
  define e where "e = \<lfloor>log 2 \<bar>x\<bar>\<rfloor>"
  define u :: real where "u = 2 powi (e - 52)"
  define m where "m = round_even (\<bar>x\<bar> / u)"
  note u = ulp_facts [OF u_def]
  have pos: "0 < \<bar>x\<bar>" using assms(1) by (rule less_le_trans [rotated]) simp
  have a: "(2::real) powr (of_int e) = 2 powi e"
    using powr_real_of_int' [of 2 e] by simp
  have b: "(2::real) powr (of_int e + 1) = 2 powi (e + 1)"
    using powr_real_of_int' [of 2 "e + 1"] by simp
  have "2 powr (of_int e) \<le> \<bar>x\<bar> \<and> \<bar>x\<bar> < 2 powr (of_int e + 1)"
    using floor_log_eq_powr_iff [OF pos, of 2 e] by (simp add: e_def)
  then have e: "2 powi e \<le> \<bar>x\<bar>" "\<bar>x\<bar> < 2 powi (e + 1)" by (simp_all only: a b)
  have "(2::real) powi (- 1022) < 2 powi (e + 1)" using assms(1) e(2) by simp
  then have "- 1022 < e + 1" by (rule powi2_less_cancel)
  then have lo: "- 1022 \<le> e" by simp
  have "(2::real) powi e < 2 powi 1023" using assms(2) e(1) by simp
  then have "e < 1023" by (rule powi2_less_cancel)
  then have hi: "e \<le> 1022" by simp
  note n = round64_normal [OF e lo hi, folded u_def, folded m_def]
  have near: "\<bar>of_int m - \<bar>x\<bar> / u\<bar> \<le> 1 / 2"
    unfolding m_def by (rule round_even_error)
  have "\<bar>of_int m * u - \<bar>x\<bar>\<bar> = \<bar>of_int m - \<bar>x\<bar> / u\<bar> * u"
    using u(1) by (simp add: abs_mult [symmetric] field_simps)
  also have "\<dots> \<le> 1 / 2 * u" using near u(1) by (simp only: mult_right_mono less_imp_le)
  also have "\<dots> = 2 powi e / 2 ^ 53" by (simp add: u(2))
  also have "\<dots> \<le> \<bar>x\<bar> / 2 ^ 53" using e(1) by (simp add: divide_right_mono)
  finally have err: "\<bar>of_int m * u - \<bar>x\<bar>\<bar> \<le> \<bar>x\<bar> / 2 ^ 53" .
  have mpos: "0 < of_int m * u" using n(2) u(1) by simp
  show ?thesis
  proof (cases "x < 0")
    case True
    then have "round64 x = Fin (- (of_int m * u))" using n(1) by simp
    moreover have "\<bar>- (of_int m * u) - x\<bar> \<le> \<bar>x\<bar> / 2 ^ 53" using err True by simp
    ultimately show ?thesis using mpos True by auto
  next
    case False
    then have "round64 x = Fin (of_int m * u)" using n(1) by simp
    moreover have "\<bar>of_int m * u - x\<bar> \<le> \<bar>x\<bar> / 2 ^ 53" using err False by simp
    moreover have "0 < x" using pos False by simp
    ultimately show ?thesis using mpos by auto
  qed
qed

lemma round64_at:
  assumes "u = 2 powi (e - 52)" and "- 1022 \<le> e" and "e \<le> 1022"
    and "2 ^ 52 * u \<le> \<bar>x\<bar>" and "\<bar>x\<bar> < 2 ^ 53 * u"
    and "(of_int m - 1 / 2) * u < \<bar>x\<bar>" and "\<bar>x\<bar> < (of_int m + 1 / 2) * u"
  shows "round64 x = Fin (if x < 0 then - (of_int m * u) else of_int m * u)"
proof -
  note u = ulp_facts [OF assms(1)]
  have a: "2 powi e \<le> \<bar>x\<bar>" using assms(4) by (simp only: u(2))
  have b: "\<bar>x\<bar> < 2 powi (e + 1)" using assms(5) by (simp only: u(3))
  have c: "of_int m - 1 / 2 < \<bar>x\<bar> / 2 powi (e - 52)"
    using assms(6) u(1) by (simp only: assms(1) [symmetric] pos_less_divide_eq)
  have d: "\<bar>x\<bar> / 2 powi (e - 52) < of_int m + 1 / 2"
    using assms(7) u(1) by (simp only: assms(1) [symmetric] pos_divide_less_eq)
  show ?thesis
    by (simp only: round64_eval [OF a b assms(2,3) c d] assms(1) [symmetric])
qed

section \<open>Relative error of the operations\<close>

lemma rel_err_refl:
  assumes "0 \<le> h" and "0 \<le> x"
  shows "rel_err h x x"
proof -
  have "x * (1 - h) \<le> x * 1" using assms by (intro mult_left_mono) simp_all
  then show ?thesis by (simp add: rel_err_def)
qed

lemma rel_err_round:
  assumes "0 < x0" and "\<bar>v - x0\<bar> \<le> x0 / 2 ^ 53"
  shows "rel_err (1 / 2 ^ 53) x0 v"
proof -
  define u :: real where "u = 1 / 2 ^ 53"
  have u: "0 < u" "u < 1" by (simp_all add: u_def)
  have "\<bar>v - x0\<bar> \<le> x0 * u" using assms(2) by (simp add: u_def)
  then have b: "x0 - x0 * u \<le> v" "v \<le> x0 + x0 * u"
    by (simp_all only: abs_diff_le_iff)
  have "v * (1 - u) \<le> (x0 + x0 * u) * (1 - u)"
    using b(2) u by (intro mult_right_mono) simp_all
  also have "\<dots> = x0 - x0 * (u * u)" by (simp add: algebra_simps)
  also have "\<dots> \<le> x0" using assms(1) u by simp
  finally have "v * (1 - u) \<le> x0" .
  moreover have "x0 * (1 - u) \<le> v" using b(1) by (simp add: algebra_simps)
  ultimately show ?thesis by (simp add: rel_err_def u_def)
qed

lemma rel_err_trans:
  assumes "rel_err h1 x0 x1" and "rel_err h2 x1 x2"
    and "0 \<le> h1" and "h1 \<le> 1" and "0 \<le> h2" and "h2 \<le> 1" and "0 \<le> x0" and "0 \<le> x2"
  shows "rel_err (h1 + h2) x0 x2"
proof -
  have a: "x0 * (1 - h1) \<le> x1" "x1 * (1 - h1) \<le> x0" "x1 * (1 - h2) \<le> x2" "x2 * (1 - h2) \<le> x1"
    using assms(1,2) by (simp_all add: rel_err_def)
  have k: "1 - (h1 + h2) \<le> (1 - h1) * (1 - h2)"
  proof -
    have "0 \<le> h1 * h2" using assms by simp
    then show ?thesis by (simp add: algebra_simps)
  qed
  have "x0 * (1 - (h1 + h2)) \<le> x0 * ((1 - h1) * (1 - h2))"
    using k assms(7) by (rule mult_left_mono)
  also have "\<dots> = (x0 * (1 - h1)) * (1 - h2)" by simp
  also have "\<dots> \<le> x1 * (1 - h2)" using a(1) assms(6) by (intro mult_right_mono) simp_all
  also have "\<dots> \<le> x2" by (rule a(3))
  finally have lo: "x0 * (1 - (h1 + h2)) \<le> x2" .
  have "x2 * (1 - (h1 + h2)) \<le> x2 * ((1 - h1) * (1 - h2))"
    using k assms(8) by (rule mult_left_mono)
  also have "\<dots> = (x2 * (1 - h2)) * (1 - h1)" by simp
  also have "\<dots> \<le> x1 * (1 - h1)" using a(4) assms(4) by (intro mult_right_mono) simp_all
  also have "\<dots> \<le> x0" by (rule a(2))
  finally have hi: "x2 * (1 - (h1 + h2)) \<le> x0" .
  show ?thesis using lo hi by (simp add: rel_err_def)
qed

lemma rel_err_mult:
  assumes "rel_err h1 x0 x" and "rel_err h2 y0 y"
    and "0 \<le> h1" and "h1 \<le> 1" and "0 \<le> h2" and "h2 \<le> 1"
    and "0 \<le> x0" and "0 \<le> y0" and "0 \<le> x" and "0 \<le> y"
  shows "rel_err (h1 + h2) (x0 * y0) (x * y)"
proof -
  have a: "x0 * (1 - h1) \<le> x" "x * (1 - h1) \<le> x0" "y0 * (1 - h2) \<le> y" "y * (1 - h2) \<le> y0"
    using assms(1,2) by (simp_all add: rel_err_def)
  have k: "1 - (h1 + h2) \<le> (1 - h1) * (1 - h2)"
  proof -
    have "0 \<le> h1 * h2" using assms by simp
    then show ?thesis by (simp add: algebra_simps)
  qed
  have "x0 * y0 * (1 - (h1 + h2)) \<le> x0 * y0 * ((1 - h1) * (1 - h2))"
    using k assms(7,8) by (intro mult_left_mono) simp_all
  also have "\<dots> = (x0 * (1 - h1)) * (y0 * (1 - h2))" by simp
  also have "\<dots> \<le> x * y"
    using a(1,3) assms by (intro mult_mono) simp_all
  finally have lo: "x0 * y0 * (1 - (h1 + h2)) \<le> x * y" .
  have "x * y * (1 - (h1 + h2)) \<le> x * y * ((1 - h1) * (1 - h2))"
    using k assms(9,10) by (intro mult_left_mono) simp_all
  also have "\<dots> = (x * (1 - h1)) * (y * (1 - h2))" by simp
  also have "\<dots> \<le> x0 * y0"
    using a(2,4) assms by (intro mult_mono) simp_all
  finally have hi: "x * y * (1 - (h1 + h2)) \<le> x0 * y0" .
  show ?thesis using lo hi by (simp add: rel_err_def)
qed

lemma rel_err_inverse:
  assumes "rel_err h x0 x" and "0 < x0" and "0 < x"
  shows "rel_err h (1 / x0) (1 / x)"
proof -
  have a: "x0 * (1 - h) \<le> x" "x * (1 - h) \<le> x0"
    using assms(1) by (simp_all add: rel_err_def)
  have "1 / x0 * (1 - h) \<le> 1 / x"
    using a(2) assms(2,3) by (simp add: field_simps)
  moreover have "1 / x * (1 - h) \<le> 1 / x0"
    using a(1) assms(2,3) by (simp add: field_simps)
  ultimately show ?thesis by (simp add: rel_err_def)
qed

lemma rel_err_add:
  assumes "rel_err h x0 x" and "rel_err h y0 y"
  shows "rel_err h (x0 + y0) (x + y)"
  using assms by (simp add: rel_err_def algebra_simps)

lemma rel_err_power:
  assumes "rel_err h x0 x" and "0 \<le> h" and "real n * h \<le> 1" and "0 \<le> x0" and "0 \<le> x"
  shows "rel_err (real n * h) (x0 ^ n) (x ^ n)"
  using assms(3)
proof (induction n)
  case 0
  show ?case by (simp add: rel_err_def)
next
  case (Suc n)
  have le: "real n * h \<le> 1" "h \<le> 1"
  proof -
    have "real n * h \<le> real (Suc n) * h" using assms(2) by (intro mult_right_mono) simp_all
    then show "real n * h \<le> 1" using Suc.prems by simp
    have "1 * h \<le> real (Suc n) * h" using assms(2) by (intro mult_right_mono) simp_all
    then show "h \<le> 1" using Suc.prems by simp
  qed
  have "rel_err (h + real n * h) (x0 * x0 ^ n) (x * x ^ n)"
    using assms(1) Suc.IH [OF le(1)] assms(2) le(2) _ le(1) assms(4) _ assms(5)
    by (rule rel_err_mult) (simp_all add: assms)
  then show ?case by (simp add: algebra_simps)
qed

lemma rel_err_bound:
  assumes "rel_err h x0 x" and "0 \<le> h" and "h \<le> 1 / 2" and "0 \<le> x0"
  shows "\<bar>x - x0\<bar> \<le> 2 * h * x0"
proof -
  have a: "x0 * (1 - h) \<le> x" "x * (1 - h) \<le> x0"
    using assms(1) by (simp_all add: rel_err_def)
  have "x * (1 - h) \<le> x0 * ((1 + 2 * h) * (1 - h))"
  proof -
    have "0 \<le> h * (1 - 2 * h)" using assms by (intro mult_nonneg_nonneg) simp_all
    then have "1 \<le> (1 + 2 * h) * (1 - h)" by (simp add: algebra_simps)
    then have "x0 * 1 \<le> x0 * ((1 + 2 * h) * (1 - h))" using assms(4) by (rule mult_left_mono)
    then show ?thesis using a(2) by simp
  qed
  then have "x * (1 - h) \<le> (x0 * (1 + 2 * h)) * (1 - h)" by (simp add: mult.assoc)
  then have "x \<le> x0 * (1 + 2 * h)" using assms(3) by (simp add: mult_le_cancel_right)
  moreover have "x0 - 2 * h * x0 \<le> x0 * (1 - h)"
  proof -
    have "0 \<le> h * x0" using assms by simp
    then show ?thesis by (simp add: algebra_simps)
  qed
  ultimately show ?thesis using a(1) by (simp add: abs_diff_le_iff algebra_simps)
qed

lemma rel_err_weaken:
  assumes "rel_err h x0 x" and "h \<le> h'" and "0 \<le> x0" and "0 \<le> x"
  shows "rel_err h' x0 x"
proof -
  have a: "x0 * (1 - h) \<le> x" "x * (1 - h) \<le> x0"
    using assms(1) by (simp_all add: rel_err_def)
  have "x0 * (1 - h') \<le> x0 * (1 - h)" using assms(2,3) by (intro mult_left_mono) simp_all
  moreover have "x * (1 - h') \<le> x * (1 - h)" using assms(2,4) by (intro mult_left_mono) simp_all
  ultimately show ?thesis using a by (simp add: rel_err_def)
qed

lemma rel_err_range:
  assumes "rel_err h x0 x" and "h \<le> 1 / 2" and "lo \<le> x0" and "x0 \<le> hi" and "0 \<le> lo"
  shows "lo / 2 \<le> x" and "x \<le> 2 * hi"
proof -
  have a: "x0 * (1 - h) \<le> x" "x * (1 - h) \<le> x0"
    using assms(1) by (simp_all add: rel_err_def)
  have x0: "0 \<le> x0" using assms(3,5) by simp
  have "x0 * (1 / 2) \<le> x0 * (1 - h)" using assms(2) x0 by (intro mult_left_mono) simp_all
  then show "lo / 2 \<le> x" using a(1) assms(3) by simp
  show "x \<le> 2 * hi"
  proof (cases "0 \<le> x")
    case True
    have "x * (1 / 2) \<le> x * (1 - h)" using assms(2) True by (intro mult_left_mono) simp_all
    then show ?thesis using a(2) assms(4) by simp
  next
    case False
    then show ?thesis using x0 assms(4) by simp
  qed
qed

lemma round64_rel:
  assumes "2 powi (- 1022) \<le> x" and "x < 2 ^ 1023"
  shows "\<exists>v. round64 x = Fin v \<and> rel_err (1 / 2 ^ 53) x v \<and> 0 < v"
proof -
  have pos: "0 < x" using assms(1) by (rule less_le_trans [rotated]) simp
  obtain v where v: "round64 x = Fin v" "\<bar>v - x\<bar> \<le> \<bar>x\<bar> / 2 ^ 53" "(0 < v) = (0 < x)"
    using round64_error [of x] assms pos by auto
  have "rel_err (1 / 2 ^ 53) x v" using v(2) pos by (intro rel_err_round) simp_all
  then show ?thesis using v(1,3) pos by blast
qed

lemma multiply_pos:
  assumes "0 < a" and "0 < b" and "2 powi (- 1022) \<le> a * b" and "a * b < 2 ^ 1023"
  shows "\<exists>v. multiply (Fin a) (Fin b) = Fin v \<and> rel_err (1 / 2 ^ 53) (a * b) v \<and> 0 < v"
proof -
  have "multiply (Fin a) (Fin b) = round64 (a * b)"
    using assms(1,2) by (simp add: multiply_def fin_def)
  then show ?thesis using round64_rel [OF assms(3,4)] by simp
qed

lemma divide_pos:
  assumes "0 < a" and "0 < b" and "2 powi (- 1022) \<le> a / b" and "a / b < 2 ^ 1023"
  shows "\<exists>v. divide_num (Fin a) (Fin b) = Fin v \<and> rel_err (1 / 2 ^ 53) (a / b) v \<and> 0 < v"
proof -
  have "divide_num (Fin a) (Fin b) = round64 (a / b)"
    using assms(1,2) by (simp add: divide_num_def fin_def)
  then show ?thesis using round64_rel [OF assms(3,4)] by simp
qed

lemma add_pos:
  assumes "0 < a" and "0 < b" and "2 powi (- 1022) \<le> a + b" and "a + b < 2 ^ 1023"
  shows "\<exists>v. add (Fin a) (Fin b) = Fin v \<and> rel_err (1 / 2 ^ 53) (a + b) v \<and> 0 < v"
proof -
  have "a + b \<noteq> 0" using assms(1,2) by simp
  then have "add (Fin a) (Fin b) = round64 (a + b)"
    by (simp add: add_def fin_def)
  then show ?thesis using round64_rel [OF assms(3,4)] by simp
qed

lemma one_minus_pos:
  assumes "0 < q" and "2 powi (- 1022) \<le> 1 - q"
  shows "\<exists>v. subtract (Fin 1) (Fin q) = Fin v \<and> rel_err (1 / 2 ^ 53) (1 - q) v \<and> 0 < v"
proof -
  have "(0::real) < 2 powi (- 1022)" by simp
  then have nz: "1 - q \<noteq> 0" "q \<noteq> 0" using assms by simp_all
  have "subtract (Fin 1) (Fin q) = round64 (1 - q)"
    using nz by (simp add: subtract_def add_def fin_def)
  moreover have "1 - q < 2 ^ 1023"
  proof -
    have "1 - q < 1" using assms(1) by simp
    also have "\<dots> \<le> (2::real) ^ 1023" by (rule one_le_power) simp
    finally show ?thesis .
  qed
  ultimately show ?thesis using round64_rel [OF assms(2)] by simp
qed

lemma pow_pos:
  assumes "0 < b" and "0 < n" and "2 powi (- 1022) \<le> b ^ nat n" and "b ^ nat n < 2 ^ 1023"
  shows "\<exists>v. pow (Fin b) (Fin (real_of_int n)) = Fin v \<and>
           rel_err (1 / 2 ^ 53) (b ^ nat n) v \<and> 0 < v"
proof -
  have "b powi n = b ^ nat n" using assms(2) by (simp add: power_int_def)
  then have "pow (Fin b) (Fin (real_of_int n)) = round64 (b ^ nat n)"
    using assms(1,2) by (simp add: pow_def integral_def)
  then show ?thesis using round64_rel [OF assms(3,4)] by simp
qed

lemma rel_err_one_minus:
  assumes "rel_err h q0 q" and "0 < q0" and "q0 < 1" and "0 \<le> h" and "h \<le> 1 / 2"
    and "2 * h \<le> g * (1 - q0)" and "0 \<le> g" and "g < 1"
  shows "rel_err g (1 - q0) (1 - q)" and "(1 - q0) * (1 - g) \<le> 1 - q"
proof -
  have a: "q0 * (1 - h) \<le> q" "q * (1 - h) \<le> q0"
    using assms(1) by (simp_all add: rel_err_def)
  have "q0 * h \<le> 1 * h" using assms(3,4) by (intro mult_right_mono) simp_all
  then have hq: "q0 * h \<le> h" by simp
  have up: "q \<le> q0 + 2 * h"
  proof (cases "0 \<le> q")
    case True
    have "q * (1 / 2) \<le> q * (1 - h)" using assms(5) True by (intro mult_left_mono) simp_all
    then have "q \<le> 2 * q0" using a(2) by simp
    then have "q * h \<le> 2 * q0 * h" using assms(4) by (intro mult_right_mono) simp_all
    moreover have "q - q * h \<le> q0" using a(2) by (simp add: algebra_simps)
    ultimately show ?thesis using hq by simp
  next
    case False
    then show ?thesis using assms(2,4) by simp
  qed
  have gD: "h \<le> g * (1 - q0)" using assms(4,6) by simp
  have lo: "(1 - q0) * (1 - g) \<le> 1 - q"
    using up assms(6) by (simp add: algebra_simps)
  have "1 - q \<le> (1 - q0) + h" using a(1) hq by (simp add: algebra_simps)
  then have "(1 - q) * (1 - g) \<le> ((1 - q0) + h) * (1 - g)"
    using assms(8) by (intro mult_right_mono) simp_all
  also have "\<dots> = (1 - q0) + (h - g * (1 - q0)) - h * g" by (simp add: algebra_simps)
  also have "\<dots> \<le> 1 - q0"
  proof -
    have "0 \<le> h * g" using assms(4,7) by simp
    then show ?thesis using gD by simp
  qed
  finally have hi: "(1 - q) * (1 - g) \<le> 1 - q0" .
  show "rel_err g (1 - q0) (1 - q)" using lo hi by (simp add: rel_err_def)
  show "(1 - q0) * (1 - g) \<le> 1 - q" by (rule lo)
qed

section \<open>The error of the conventional payment\<close>

lemma discount_powi:
  fixes i :: real
  assumes "0 < i" and "0 < n"
  shows "(1 / (1 + i)) ^ nat n = (1 + i) powi (- n)"
  using assms by (simp add: power_int_def power_one_over inverse_eq_divide)

lemma discount_facts:
  fixes i0 :: real
  assumes "0 < i0" and "i0 \<le> 1" and "1 \<le> k" and "k \<le> 1000"
    and "1 / 2 ^ 10 \<le> 1 - (1 / (1 + i0)) ^ k"
  shows "1 / 2 ^ 20 \<le> i0" and "(1 / 2) ^ 1000 \<le> (1 / (1 + i0)) ^ k"
    and "(1 / (1 + i0)) ^ k < 1"
proof -
  define x where "x = i0 / (1 + i0)"
  have x: "0 < x" "x \<le> i0" "1 / (1 + i0) = 1 + (- x)"
    using assms(1) by (simp_all add: x_def field_simps)
  have "- 1 \<le> - x" using x(3) assms(1) by (smt (verit) divide_nonneg_nonneg)
  then have "1 + real k * (- x) \<le> (1 + (- x)) ^ k" by (rule Bernoulli_inequality)
  then have "1 - (1 / (1 + i0)) ^ k \<le> real k * x" by (simp add: x(3))
  also have "\<dots> \<le> 1000 * i0"
    using assms(4) x(1,2) by (intro mult_mono) simp_all
  finally have "1 / 2 ^ 10 \<le> 1000 * i0" using assms(5) by simp
  then show "1 / 2 ^ 20 \<le> i0" by simp
  have half: "1 / 2 \<le> 1 / (1 + i0)" using assms(1,2) by (simp add: field_simps)
  have "(1 / 2 :: real) ^ 1000 \<le> (1 / 2) ^ k"
    using assms(4) by (intro power_decreasing) simp_all
  also have "\<dots> \<le> (1 / (1 + i0)) ^ k" using half by (intro power_mono) simp_all
  finally show "(1 / 2) ^ 1000 \<le> (1 / (1 + i0)) ^ k" .
  have "0 < 1 / (1 + i0)" "1 / (1 + i0) < 1" using assms(1) by simp_all
  then show "(1 / (1 + i0)) ^ k < 1" using assms(3) by (simp add: power_less_one_iff)
qed

lemma conventional_payment_error:
  assumes "principle loan = Fin p" and "Loan.interest loan = Fin r"
    and "months loan = Fin (real_of_int n)"
    and "1 / 2 ^ 500 \<le> p" and "p \<le> 2 ^ 500"
    and "0 < r" and "r \<le> 1200"
    and "1 \<le> n" and "n \<le> 1000"
    and "1 / 2 ^ 10 \<le> 1 - (1 + r / 1200) powi (- n)"
  shows "\<exists>v. conventional_payment loan = Fin v \<and> 0 < v \<and>
           rel_err (1 / 2 ^ 30 + 4 / 2 ^ 53) (spec_amortizedPayment p r n) v"
proof -
  define u :: real where "u = 1 / 2 ^ 53"
  define g :: real where "g = 1 / 2 ^ 30"
  define i0 where "i0 = r / 1200"
  define s0 where "s0 = 1 + i0"
  define k where "k = nat n"
  define q0 where "q0 = (1 / s0) ^ k"
  define D0 where "D0 = 1 - q0"
  have u: "0 \<le> u" "u \<le> 1 / 2" "u \<le> 1" by (simp_all add: u_def)
  have g: "0 \<le> g" "g < 1" by (simp_all add: g_def)
  have c1: "(0::real) < 1" and c1200: "(0::real) < 1200" by simp_all
  have ppos: "0 < p" using assms(4) by (rule less_le_trans [rotated]) simp
  have i0: "0 < i0" "i0 \<le> 1" using assms(6,7) by (simp_all add: i0_def)
  have k: "1 \<le> k" "k \<le> 1000" "0 < n" using assms(8,9) by (simp_all add: k_def)
  have pw: "q0 = (1 + i0) powi (- n)"
    unfolding q0_def s0_def k_def by (rule discount_powi [OF i0(1) k(3)])
  have D: "1 / 2 ^ 10 \<le> D0" using assms(10) by (simp add: D0_def pw i0_def)
  note df = discount_facts [OF i0 k(1,2) D [unfolded D0_def q0_def s0_def]]
  have i0lo: "1 / 2 ^ 20 \<le> i0" by (rule df(1))
  have q0: "(1 / 2) ^ 1000 \<le> q0" "q0 < 1" "0 < q0"
    using df(2,3) i0(1) by (simp_all add: q0_def s0_def)
  have s0: "1 \<le> s0" "s0 \<le> 2" "0 < s0" using i0 by (simp_all add: s0_def)
  have V: "spec_amortizedPayment p r n = p * i0 / D0"
    by (simp add: spec_amortizedPayment_def Let_def D0_def pw i0_def)
  have "2 powi (- 1022) \<le> (1 / 2 ^ 20 :: real)" by (simp add: power_int_minus_divide)
  then have r1: "2 powi (- 1022) \<le> r / 1200" using i0lo by (simp add: i0_def)
  have "r / 1200 \<le> 1" using i0(2) by (simp add: i0_def)
  then have r2: "r / 1200 < 2 ^ 1023" by (rule le_less_trans) simp
  obtain i where i: "divide_num (Fin r) (Fin 1200) = Fin i" "rel_err u (r / 1200) i" "0 < i"
    using divide_pos [OF assms(6) c1200 r1 r2] unfolding u_def by blast
  have ri: "rel_err u i0 i" using i(2) by (simp add: i0_def)
  have ib: "1 / 2 ^ 20 / 2 \<le> i" "i \<le> 2 * 1"
    using rel_err_range [OF ri u(2) i0lo i0(2)] by simp_all
  have "1 / 2 ^ 500 * (1 / 2 ^ 20 / 2) \<le> p * i"
    using assms(4) ib(1) by (intro mult_mono) simp_all
  moreover have "2 powi (- 1022) \<le> (1 / 2 ^ 500 * (1 / 2 ^ 20 / 2) :: real)"
    by (simp add: power_int_minus_divide)
  ultimately have n1: "2 powi (- 1022) \<le> p * i" by (rule order_trans [rotated])
  have "p * i \<le> 2 ^ 500 * (2 * 1)"
    using assms(5) ib(2) ppos i(3) by (intro mult_mono) simp_all
  then have n2: "p * i < 2 ^ 1023" by (rule le_less_trans) simp
  obtain N where N: "multiply (Fin p) (Fin i) = Fin N" "rel_err u (p * i) N" "0 < N"
    using multiply_pos [OF ppos i(3) n1 n2] unfolding u_def by blast
  have "rel_err (0 + u) (p * i0) (p * i)"
    using rel_err_refl [of 0 p] ri ppos i0(1) i(3) u
    by (intro rel_err_mult) simp_all
  then have "rel_err (u + u) (p * i0) N"
    using N(2,3) ppos i0(1) u by (intro rel_err_trans [where ?x1.0 = "p * i"]) simp_all
  then have rN: "rel_err (2 * u) (p * i0) N" by simp
  have a1: "2 powi (- 1022) \<le> 1 + i"
  proof -
    have "2 powi (- 1022) \<le> (1::real)" by (simp add: power_int_minus_divide)
    then show ?thesis using i(3) by simp
  qed
  have "1 + i \<le> 3" using ib(2) by simp
  then have a2: "1 + i < 2 ^ 1023" by (rule le_less_trans) simp
  obtain s where s: "add (Fin 1) (Fin i) = Fin s" "rel_err u (1 + i) s" "0 < s"
    using add_pos [OF c1 i(3) a1 a2] unfolding u_def by blast
  have "rel_err u (1 + i0) (1 + i)"
    using rel_err_refl [of u 1] ri u(1) by (intro rel_err_add) simp_all
  then have "rel_err (u + u) s0 s"
    using s(2,3) s0(3) u by (intro rel_err_trans [where ?x1.0 = "1 + i"]) (simp_all add: s0_def)
  then have rs: "rel_err (2 * u) s0 s" by simp
  have u2: "2 * u \<le> 1 / 2" by (simp add: u_def)
  have sb: "1 / 2 \<le> s" "s \<le> 2 * 2"
    using rel_err_range [OF rs u2 s0(1,2)] by simp_all
  have "1 / 4 \<le> 1 / s" using sb(2) s(3) by (simp add: field_simps)
  moreover have "2 powi (- 1022) \<le> (1 / 4 :: real)" by (simp add: power_int_minus_divide)
  ultimately have b1: "2 powi (- 1022) \<le> 1 / s" by (rule order_trans [rotated])
  have "1 / s \<le> 2" using sb(1) s(3) by (simp add: field_simps)
  then have b2: "1 / s < 2 ^ 1023" by (rule le_less_trans) simp
  obtain b where b: "divide_num (Fin 1) (Fin s) = Fin b" "rel_err u (1 / s) b" "0 < b"
    using divide_pos [OF c1 s(3) b1 b2] unfolding u_def by blast
  have "rel_err (2 * u) (1 / s0) (1 / s)" using rs s0(3) s(3) by (rule rel_err_inverse)
  then have "rel_err (2 * u + u) (1 / s0) b"
    using b(2,3) s0(3) u by (intro rel_err_trans [where ?x1.0 = "1 / s"]) simp_all
  then have rb: "rel_err (3 * u) (1 / s0) b" by simp
  have ku: "real k * (3 * u) \<le> 1 / 2"
  proof -
    have "real k * (3 * u) \<le> 1000 * (3 * u)" using k(2) u(1) by (intro mult_right_mono) simp_all
    also have "\<dots> \<le> 1 / 2" by (simp add: u_def)
    finally show ?thesis .
  qed
  have rp: "rel_err (real k * (3 * u)) q0 (b ^ k)"
    unfolding q0_def using rb _ _ _ _
    by (rule rel_err_power) (use u ku s0(3) b(3) in simp_all)
  have pb: "(1 / 2) ^ 1000 / 2 \<le> b ^ k" "b ^ k \<le> 2 * 1"
    using rel_err_range [OF rp ku q0(1) less_imp_le [OF q0(2)]] by simp_all
  have "2 powi (- 1022) \<le> ((1 / 2) ^ 1000 / 2 :: real)"
    by (simp add: power_int_minus_divide power_one_over)
  then have p1: "2 powi (- 1022) \<le> b ^ nat n" using pb(1) by (simp add: k_def)
  have "b ^ nat n \<le> 2" using pb(2) by (simp add: k_def)
  then have p2: "b ^ nat n < 2 ^ 1023" by (rule le_less_trans) simp
  obtain q where q: "pow (Fin b) (Fin (real_of_int n)) = Fin q" "rel_err u (b ^ nat n) q" "0 < q"
    using pow_pos [OF b(3) k(3) p1 p2] unfolding u_def by blast
  have rq1: "rel_err (real k * (3 * u) + u) q0 q"
    using rp q(2,3) q0(3) u ku
    by (intro rel_err_trans [where ?x1.0 = "b ^ k"]) (simp_all add: k_def)
  have rq2: "real k * (3 * u) + u \<le> 3001 * u"
  proof -
    have "real k * u \<le> 1000 * u" using k(2) u(1) by (intro mult_right_mono) simp_all
    moreover have "real k * (3 * u) + u = 3 * (real k * u) + u" by simp
    ultimately show ?thesis by argo
  qed
  have rq: "rel_err (3001 * u) q0 q"
    by (rule rel_err_weaken [OF rq1 rq2 less_imp_le [OF q0(3)] less_imp_le [OF q(3)]])
  have gh: "2 * (3001 * u) \<le> g * (1 - q0)"
  proof -
    have "2 * (3001 * u) \<le> g * (1 / 2 ^ 10)" by (simp add: u_def g_def)
    also have "\<dots> \<le> g * D0" using D g(1) by (intro mult_left_mono) simp_all
    finally show ?thesis by (simp add: D0_def)
  qed
  have h1: "0 \<le> 3001 * u" "3001 * u \<le> 1 / 2" by (simp_all add: u_def)
  note om = rel_err_one_minus [OF rq q0(3,2) h1 gh g]
  have rd0: "rel_err g D0 (1 - q)" using om(1) by (simp add: D0_def)
  have "D0 * (1 - g) \<le> 1 - q" using om(2) by (simp add: D0_def)
  moreover have "1 / 2 ^ 10 * (1 / 2) \<le> D0 * (1 - g)"
    using D g by (intro mult_mono) (simp_all add: g_def)
  ultimately have dlo: "1 / 2 ^ 10 * (1 / 2) \<le> 1 - q" by (rule order_trans [rotated])
  have "2 powi (- 1022) \<le> (1 / 2 ^ 10 * (1 / 2) :: real)" by (simp add: power_int_minus_divide)
  then have d1: "2 powi (- 1022) \<le> 1 - q" using dlo by (rule order_trans)
  obtain d where d: "subtract (Fin 1) (Fin q) = Fin d" "rel_err u (1 - q) d" "0 < d"
    using one_minus_pos [OF q(3) d1] unfolding u_def by blast
  have D0pos: "0 < D0" using D by (rule less_le_trans [rotated]) simp
  have "rel_err (g + u) D0 d"
    using rd0 d(2,3) D0pos g u by (intro rel_err_trans [where ?x1.0 = "1 - q"]) simp_all
  then have rd: "rel_err (g + u) D0 d" .
  have gu: "g + u \<le> 1 / 2" "0 \<le> g + u" "g + u \<le> 1" by (simp_all add: g_def u_def)
  have D0hi: "D0 \<le> 1" using q0(3) by (simp add: D0_def)
  have db: "1 / 2 ^ 10 / 2 \<le> d" "d \<le> 2 * 1"
    using rel_err_range [OF rd gu(1) D D0hi] by simp_all
  have pi0: "1 / 2 ^ 500 * (1 / 2 ^ 20) \<le> p * i0" "p * i0 \<le> 2 ^ 500 * 1"
    using assms(4,5) i0lo i0 ppos by (intro mult_mono; simp)+
  have Nb: "1 / 2 ^ 500 * (1 / 2 ^ 20) / 2 \<le> N" "N \<le> 2 * (2 ^ 500 * 1)"
    using rel_err_range [OF rN u2 pi0] by simp_all
  have "1 / 2 ^ 500 * (1 / 2 ^ 20) / 2 / 2 \<le> N / d"
    using Nb(1) db(2) d(3) N(3) by (intro frac_le) simp_all
  moreover have "2 powi (- 1022) \<le> (1 / 2 ^ 500 * (1 / 2 ^ 20) / 2 / 2 :: real)"
    by (simp add: power_int_minus_divide)
  ultimately have v1: "2 powi (- 1022) \<le> N / d" by (rule order_trans [rotated])
  have "N / d \<le> 2 * (2 ^ 500 * 1) / (1 / 2 ^ 10 / 2)"
    using Nb(2) db(1) N(3) by (intro frac_le) simp_all
  then have v2: "N / d < 2 ^ 1023" by (rule le_less_trans) simp
  obtain v where v: "divide_num (Fin N) (Fin d) = Fin v" "rel_err u (N / d) v" "0 < v"
    using divide_pos [OF N(3) d(3) v1 v2] unfolding u_def by blast
  have "rel_err (g + u) (1 / D0) (1 / d)" using rd D0pos d(3) by (rule rel_err_inverse)
  then have "rel_err (2 * u + (g + u)) (p * i0 * (1 / D0)) (N * (1 / d))"
    using rN ppos i0(1) D0pos N(3) d(3) u gu by (intro rel_err_mult) simp_all
  then have rQ: "rel_err (2 * u + (g + u)) (p * i0 / D0) (N / d)" by simp
  have "rel_err (2 * u + (g + u) + u) (p * i0 / D0) v"
    by (rule rel_err_trans [OF rQ v(2)])
       (use v(3) ppos i0(1) D0pos in \<open>simp_all add: u_def g_def\<close>)
  then have rv: "rel_err (1 / 2 ^ 30 + 4 / 2 ^ 53) (spec_amortizedPayment p r n) v"
    by (simp add: V u_def g_def)
  have "conventional_payment loan = Fin v"
    by (simp only: conventional_payment_def Let_def assms(1,2,3) i N s b q d v)
  then show ?thesis using v(3) rv by blast
qed

section \<open>The interest-only payment and its formula\<close>

lemma rate_5: "divide_num (Fin 5) (Fin 1200) = Fin (4803839602528529 / 1152921504606846976)"
  using round64_at [of "1 / 2 ^ 60" "- 8" "1 / 240" 4803839602528529]
  by (simp add: divide_num_def fin_def power_int_minus_divide)

lemma interest_30000_5: "multiply (Fin 30000) (Fin (4803839602528529 / 1152921504606846976)) = Fin 125"
  using round64_at [of "1 / 2 ^ 46" "6" "9007199254740991875 / 72057594037927936" 8796093022208000]
  by (simp add: multiply_def fin_def power_int_minus_divide)

lemma interest_30006_5: "multiply (Fin 30006) (Fin (4803839602528529 / 1152921504606846976)) = Fin (8797852240812441 / 70368744177664)"
  using round64_at [of "1 / 2 ^ 46" "6" "72072005556735520587 / 576460752303423488" 8797852240812441]
  by (simp add: multiply_def fin_def power_int_minus_divide)

lemma interestOnly_payment_error:
  assumes "principle loan = Fin p" and "Loan.interest loan = Fin r"
    and "1 / 2 ^ 500 \<le> p" and "p \<le> 2 ^ 500" and "1 / 2 ^ 500 \<le> r" and "r \<le> 2 ^ 500"
  shows "\<exists>v. interestOnly_payment loan = Fin v \<and> 0 < v \<and>
           rel_err (2 / 2 ^ 53) (p * (r / 1200)) v"
proof -
  define u :: real where "u = 1 / 2 ^ 53"
  have u: "0 \<le> u" "u \<le> 1 / 2" "u \<le> 1" by (simp_all add: u_def)
  have c1200: "(0::real) < 1200" by simp
  have ppos: "0 < p" using assms(3) by (rule less_le_trans [rotated]) simp
  have rpos: "0 < r" using assms(5) by (rule less_le_trans [rotated]) simp
  have i0: "1 / 2 ^ 500 / 1200 \<le> r / 1200" "r / 1200 \<le> 2 ^ 500 / 1200" "0 < r / 1200"
    using assms(5,6) rpos by (simp_all add: divide_right_mono)
  have "2 powi (- 1022) \<le> (1 / 2 ^ 500 / 1200 :: real)" by (simp add: power_int_minus_divide)
  then have r1: "2 powi (- 1022) \<le> r / 1200" using i0(1) by (rule order_trans)
  have "(2 ^ 500 / 1200 :: real) < 2 ^ 1023" by simp
  then have r2: "r / 1200 < 2 ^ 1023" using i0(2) by (rule le_less_trans [rotated])
  obtain i where i: "divide_num (Fin r) (Fin 1200) = Fin i" "rel_err u (r / 1200) i" "0 < i"
    using divide_pos [OF rpos c1200 r1 r2] unfolding u_def by blast
  have ib: "1 / 2 ^ 500 / 1200 / 2 \<le> i" "i \<le> 2 * (2 ^ 500 / 1200)"
    using rel_err_range [OF i(2) u(2) i0(1,2)] by simp_all
  have "1 / 2 ^ 500 * (1 / 2 ^ 500 / 1200 / 2) \<le> p * i"
    using assms(3) ib(1) by (intro mult_mono) simp_all
  moreover have "2 powi (- 1022) \<le> (1 / 2 ^ 500 * (1 / 2 ^ 500 / 1200 / 2) :: real)"
    by (simp add: power_int_minus_divide)
  ultimately have n1: "2 powi (- 1022) \<le> p * i" by (rule order_trans [rotated])
  have "p * i \<le> 2 ^ 500 * (2 * (2 ^ 500 / 1200))"
    using assms(4) ib(2) ppos i(3) by (intro mult_mono) simp_all
  then have n2: "p * i < 2 ^ 1023" by (rule le_less_trans) simp
  obtain N where N: "multiply (Fin p) (Fin i) = Fin N" "rel_err u (p * i) N" "0 < N"
    using multiply_pos [OF ppos i(3) n1 n2] unfolding u_def by blast
  have r0: "rel_err 0 p p" using ppos by (intro rel_err_refl) simp_all
  have "rel_err (0 + u) (p * (r / 1200)) (p * i)"
    by (rule rel_err_mult [OF r0 i(2)]) (use ppos i0(3) i(3) u in simp_all)
  then have r1: "rel_err u (p * (r / 1200)) (p * i)" by simp
  have "rel_err (u + u) (p * (r / 1200)) N"
    by (rule rel_err_trans [OF r1 N(2)]) (use ppos i0(3) N(3) u in simp_all)
  then have rN: "rel_err (2 / 2 ^ 53) (p * (r / 1200)) N" by (simp add: u_def)
  have "interestOnly_payment loan = Fin N"
    by (simp only: interestOnly_payment_def Let_def assms(1,2) i N)
  then show ?thesis using N(3) rN by blast
qed

lemma toFixed_12502: "toFixed ts 2 (Fin (8797852240812441 / 70368744177664)) = Inr ''125.02''"
  by (simp add: toFixed_def point_digits_def Let_def digits.simps)

text \<open>
  C1, as the claim states it, fails: for a principal of 30006 at 5 percent the payment is
  the binary64 number 125.02499999999999..., not 30006 * 5 / 1200 = 125.025, and the
  function prints 125.02.
\<close>

theorem interestOnly_exact_counterexample:
  "(0::real) < 30006 \<and> (0::real) \<le> 5 \<and>
   interestOnly_payment \<lparr>principle = Fin 30006, interest = Fin 5\<rparr> =
     Fin (8797852240812441 / 2 ^ 46) \<and>
   8797852240812441 / 2 ^ 46 \<noteq> spec_interestOnlyPayment 30006 5 \<and>
   (\<forall>ts s. calculateInterestOnlyLoanPayment ts
        \<lparr>principle = Fin 30006, interest = Fin 5\<rparr> s =
      (Inr ''The interest only loan payment is 125.02'', s))"
proof -
  have p: "interestOnly_payment \<lparr>principle = Fin 30006, interest = Fin 5\<rparr> =
      Fin (8797852240812441 / 70368744177664)"
    by (simp add: interestOnly_payment_def rate_5 interest_30006_5)
  show ?thesis
    by (simp add: p calculateInterestOnlyLoanPayment_def toFixed_12502
          spec_interestOnlyPayment_def)
qed

text \<open>
  C1, amended. For a principal between \<open>2\<close> to the -500 and \<open>2\<close> to the 500, and a rate
  that is zero or in the same range, the payment that \<open>calculateInterestOnlyLoanPayment\<close>
  computes is the product of the principal and rate over 1200 with both operations
  rounded to binary64: a finite number within a relative error of \<open>2\<close> to the -51 of
  principal times rate over 1200.
\<close>

theorem interestOnly_payment_rounded:
  assumes "principle loan = Fin p" and "Loan.interest loan = Fin r"
    and "1 / 2 ^ 500 \<le> p" and "p \<le> 2 ^ 500"
    and "r = 0 \<or> (1 / 2 ^ 500 \<le> r \<and> r \<le> 2 ^ 500)"
  shows "\<exists>v. interestOnly_payment loan = Fin v \<and>
           \<bar>v - spec_interestOnlyPayment p r\<bar> \<le> spec_interestOnlyPayment p r / 2 ^ 51"
proof (cases "r = 0")
  case True
  have ppos: "0 < p" using assms(3) by (rule less_le_trans [rotated]) simp
  have "interestOnly_payment loan = Fin 0"
    using ppos
    by (simp add: interestOnly_payment_def assms(1,2) True divide_num_def multiply_def fin_def)
  then show ?thesis by (simp add: spec_interestOnlyPayment_def True)
next
  case False
  then have r: "1 / 2 ^ 500 \<le> r" "r \<le> 2 ^ 500" using assms(5) by simp_all
  obtain v where v: "interestOnly_payment loan = Fin v"
      "rel_err (2 / 2 ^ 53) (p * (r / 1200)) v"
    using interestOnly_payment_error [OF assms(1-4) r] by blast
  have ppos: "0 < p" using assms(3) by (rule less_le_trans [rotated]) simp
  have rpos: "0 < r" using r(1) by (rule less_le_trans [rotated]) simp
  have "\<bar>v - p * (r / 1200)\<bar> \<le> 2 * (2 / 2 ^ 53) * (p * (r / 1200))"
    by (rule rel_err_bound [OF v(2)]) (use ppos rpos in simp_all)
  then have "\<bar>v - spec_interestOnlyPayment p r\<bar> \<le> spec_interestOnlyPayment p r / 2 ^ 51"
    by (simp add: spec_interestOnlyPayment_def)
  then show ?thesis using v(1) by blast
qed

theorem interestOnly_payment_rounded_witness:
  "(1 / 2 ^ 500 :: real) \<le> 30006 \<and> (30006 :: real) \<le> 2 ^ 500 \<and>
   (1 / 2 ^ 500 :: real) \<le> 5 \<and> (5 :: real) \<le> 2 ^ 500 \<and>
   (\<exists>v. interestOnly_payment \<lparr>principle = Fin 30006, interest = Fin 5\<rparr> = Fin v \<and>
        \<bar>v - 125025 / 1000\<bar> \<le> 125025 / 1000 / 2 ^ 51)"
  using interestOnly_payment_rounded
    [of "\<lparr>principle = Fin 30006, interest = Fin 5\<rparr>" 30006 5]
  by (simp add: spec_interestOnlyPayment_def)

section \<open>The conventional payment and its formula\<close>






lemma one_minus_one: "subtract (Fin 1) (Fin 1) = Fin 0"
  by (simp add: subtract_def add_def fin_def)











section \<open>A zero interest rate\<close>

lemma round64_one: "round64 1 = Fin 1"
  using round64_at [of "1 / 2 ^ 52" 0 1 "2 ^ 52"]
  by (simp add: power_int_minus_divide)

lemma conventional_payment_split:
  "conventional_payment loan =
     divide_num (conventional_numerator loan) (conventional_denominator loan)"
  by (simp only: conventional_payment_def conventional_numerator_def
        conventional_denominator_def Let_def)

lemma zero_monthly_rate:
  assumes "is_zero x"
  shows "divide_num x (Fin 1200) = x"
  using assms by (cases x) (simp_all add: divide_num_def fin_def)

lemma multiply_zero:
  assumes "is_zero i"
  shows "isNaN (multiply p i) \<or> is_zero (multiply p i)"
  using assms by (cases p; cases i) (simp_all add: multiply_def fin_def)

lemma discount_base_zero_rate:
  assumes "is_zero i"
  shows "divide_num (Fin 1) (add (Fin 1) i) = Fin 1"
  using assms by (cases i) (simp_all add: add_def divide_num_def fin_def round64_one)

lemma pow_one: "pow (Fin 1) m = NaN \<or> pow (Fin 1) m = Fin 1"
  by (cases m) (simp_all add: pow_def round64_one)

lemma pow_one_finite:
  assumes "is_finite m"
  shows "pow (Fin 1) m = Fin 1"
  using assms by (cases m) (simp_all add: pow_def round64_one)

lemma one_minus_NaN: "subtract (Fin 1) NaN = NaN"
  by (simp add: subtract_def add_def)

lemma divide_zero_by_zero:
  assumes "isNaN x \<or> is_zero x" and "y = NaN \<or> y = Fin 0"
  shows "divide_num x y = NaN"
  using assms by (cases x) (auto simp add: divide_num_def)

lemma conventional_numerator_zero_rate:
  assumes "is_zero (Loan.interest loan)"
  shows "isNaN (conventional_numerator loan) \<or> is_zero (conventional_numerator loan)"
  using assms
  by (simp only: conventional_numerator_def zero_monthly_rate [OF assms] multiply_zero)

lemma conventional_denominator_zero_rate:
  assumes "is_zero (Loan.interest loan)"
  shows "conventional_denominator loan = NaN \<or> conventional_denominator loan = Fin 0"
  using pow_one [of "months loan"]
  by (auto simp add: conventional_denominator_def zero_monthly_rate [OF assms]
        discount_base_zero_rate [OF assms] one_minus_one one_minus_NaN)

lemma conventional_payment_zero_rate:
  assumes "is_zero (Loan.interest loan)"
  shows "conventional_payment loan = NaN"
  by (simp only: conventional_payment_split
        divide_zero_by_zero [OF conventional_numerator_zero_rate [OF assms]
          conventional_denominator_zero_rate [OF assms]])

lemma toFixed_NaN: "toFixed ts 2 NaN = Inr ''NaN''"
  by (simp add: toFixed_def)

lemma zero_rate_string:
  assumes "is_zero (Loan.interest loan)"
  shows "calculateConventionalLoanPayment ts loan s =
           (Inr ''The conventional loan payment is NaN'', s)"
  by (simp add: calculateConventionalLoanPayment_def conventional_payment_zero_rate [OF assms]
        toFixed_NaN)

text \<open>
  C10. The division of \<open>calculateConventionalLoanPayment\<close> has no guard. When the
  interest rate is zero the payment is \<open>NaN\<close> and the function returns
  "The conventional loan payment is NaN", whatever the principal and the term are; for a
  finite principal and a finite term the numerator is a zero and the denominator,
  one minus \<open>1 / (1 + 0)\<close> to the power of the term, is zero, so that zero is
  divided by zero.
\<close>

theorem zero_rate_divides_zero_by_zero:
  assumes "is_zero (Loan.interest loan)"
  shows "conventional_payment loan = NaN \<and>
         calculateConventionalLoanPayment ts loan s =
           (Inr ''The conventional loan payment is NaN'', s) \<and>
         (is_finite (principle loan) \<and> is_finite (months loan) \<longrightarrow>
            is_zero (conventional_numerator loan) \<and> conventional_denominator loan = Fin 0)"
proof -
  have "is_zero (conventional_numerator loan) \<and> conventional_denominator loan = Fin 0"
    if fin: "is_finite (principle loan)" "is_finite (months loan)"
  proof
    show "is_zero (conventional_numerator loan)"
      using fin(1) assms
      by (cases "principle loan"; cases "Loan.interest loan")
         (simp_all add: conventional_numerator_def divide_num_def multiply_def fin_def)
    show "conventional_denominator loan = Fin 0"
      by (simp add: conventional_denominator_def zero_monthly_rate [OF assms]
            discount_base_zero_rate [OF assms] pow_one_finite [OF fin(2)] one_minus_one)
  qed
  then show ?thesis
    using conventional_payment_zero_rate [OF assms] zero_rate_string [OF assms] by simp
qed

theorem zero_rate_divides_zero_by_zero_witness:
  "\<forall>ts s. is_zero (Fin 0) \<and>
     conventional_payment \<lparr>principle = Fin 5000, interest = Fin 0, months = Fin 24\<rparr> = NaN \<and>
     calculateConventionalLoanPayment ts
         \<lparr>principle = Fin 5000, interest = Fin 0, months = Fin 24\<rparr> s =
       (Inr ''The conventional loan payment is NaN'', s) \<and>
     is_zero (conventional_numerator \<lparr>principle = Fin 5000, interest = Fin 0, months = Fin 24\<rparr>) \<and>
     conventional_denominator \<lparr>principle = Fin 5000, interest = Fin 0, months = Fin 24\<rparr> = Fin 0"
  using zero_rate_divides_zero_by_zero
    [of "\<lparr>principle = Fin 5000, interest = Fin 0, months = Fin 24\<rparr>"]
  by simp

text \<open>
  C3. The claim: with an annual rate of zero the amortized payment is principal over
  months. The code has no case for a zero rate: for a principal of 30000 over 180 months
  its payment is \<open>NaN\<close>, not 30000 / 180, and the string it returns ends in "NaN".
\<close>

theorem zero_rate_is_not_straight_line:
  "conventional_payment \<lparr>principle = Fin 30000, interest = Fin 0, months = Fin 180\<rparr> = NaN \<and>
   conventional_payment \<lparr>principle = Fin 30000, interest = Fin 0, months = Fin 180\<rparr>
     \<noteq> Fin (30000 / 180) \<and>
   calculateConventionalLoanPayment ts
       \<lparr>principle = Fin 30000, interest = Fin 0, months = Fin 180\<rparr> s =
     (Inr ''The conventional loan payment is NaN'', s)"
  by (simp add: conventional_payment_zero_rate zero_rate_string)

text \<open>
  C7. The claim: for every valid input the payment is a real number that is not
  negative. A rate of zero is a valid input, and there the conventional payment is
  \<open>NaN\<close>, which is no real number: here for a principal of 1000 over 12 months.
\<close>

theorem zero_rate_payment_is_no_number:
  "conventional_payment \<lparr>principle = Fin 1000, interest = Fin 0, months = Fin 12\<rparr> = NaN \<and>
   \<not> is_finite (conventional_payment \<lparr>principle = Fin 1000, interest = Fin 0, months = Fin 12\<rparr>)"
  by (simp add: conventional_payment_zero_rate)

section \<open>No validation, no effects\<close>

lemma toFixed_2_returns: "\<exists>t. toFixed ts 2 x = Inr t"
  by (simp add: toFixed_def Let_def)

lemma calculateInterestOnlyLoanPayment_returns:
  "\<exists>t. calculateInterestOnlyLoanPayment ts loan s =
         (Inr (''The interest only loan payment is '' @ t), s) \<and>
       toFixed ts 2 (interestOnly_payment loan) = Inr t"
  using toFixed_2_returns [of ts "interestOnly_payment loan"]
  by (auto simp add: calculateInterestOnlyLoanPayment_def)

lemma calculateConventionalLoanPayment_returns:
  "\<exists>t. calculateConventionalLoanPayment ts loan s =
         (Inr (''The conventional loan payment is '' @ t), s) \<and>
       toFixed ts 2 (conventional_payment loan) = Inr t"
  using toFixed_2_returns [of ts "conventional_payment loan"]
  by (auto simp add: calculateConventionalLoanPayment_def)

lemma rate_1: "divide_num (Fin 1) (Fin 1200) = Fin (7686143364045647 / 9223372036854775808)"
  using round64_at [of "1 / 2 ^ 63" "- 11" "1 / 1200" 7686143364045647]
  by (simp add: divide_num_def fin_def power_int_minus_divide)

lemma interest_neg1200_1: "multiply (Fin (- 1200)) (Fin (7686143364045647 / 9223372036854775808)) = Fin (- 1)"
  using round64_at [of "1 / 2 ^ 52" "0" "- (576460752303423525 / 576460752303423488)" 4503599627370496]
  by (simp add: multiply_def fin_def power_int_minus_divide)

lemma rate_neg1: "divide_num (Fin (- 1)) (Fin 1200) = Fin (- (7686143364045647 / 9223372036854775808))"
  using round64_at [of "1 / 2 ^ 63" "- 11" "- (1 / 1200)" 7686143364045647]
  by (simp add: divide_num_def fin_def power_int_minus_divide)

lemma interest_1200_neg1: "multiply (Fin 1200) (Fin (- (7686143364045647 / 9223372036854775808))) = Fin (- 1)"
  using round64_at [of "1 / 2 ^ 52" "0" "- (576460752303423525 / 576460752303423488)" 4503599627370496]
  by (simp add: multiply_def fin_def power_int_minus_divide)

lemma rate_1200: "divide_num (Fin 1200) (Fin 1200) = Fin 1"
  using round64_at [of "1 / 2 ^ 52" "0" "1" 4503599627370496]
  by (simp add: divide_num_def fin_def power_int_minus_divide)

lemma numerator_1200_1: "multiply (Fin 1200) (Fin 1) = Fin 1200"
  using round64_at [of "1 / 2 ^ 42" "10" "1200" 5277655813324800]
  by (simp add: multiply_def fin_def power_int_minus_divide)

lemma one_plus_one: "add (Fin 1) (Fin 1) = Fin 2"
  using round64_at [of "1 / 2 ^ 51" "1" "2" 4503599627370496]
  by (simp add: add_def fin_def power_int_minus_divide)

lemma one_half: "divide_num (Fin 1) (Fin 2) = Fin (1 / 2)"
  using round64_at [of "1 / 2 ^ 53" "- 1" "1 / 2" 4503599627370496]
  by (simp add: divide_num_def fin_def power_int_minus_divide)

lemma half_to_minus_2: "pow (Fin (1 / 2)) (Fin (- 2)) = Fin 4"
  using round64_at [of "1 / 2 ^ 50" "2" "4" 4503599627370496]
  by (simp add: pow_def integral_def power_int_minus_divide power_one_over power_divide power_int_minus_divide)

lemma one_minus_four: "subtract (Fin 1) (Fin 4) = Fin (- 3)"
  using round64_at [of "1 / 2 ^ 51" "1" "- 3" 6755399441055744]
  by (simp add: subtract_def add_def fin_def power_int_minus_divide)

lemma payment_neg400: "divide_num (Fin 1200) (Fin (- 3)) = Fin (- 400)"
  using round64_at [of "1 / 2 ^ 44" "8" "- 400" 7036874417766400]
  by (simp add: divide_num_def fin_def power_int_minus_divide)

lemma toFixed_minus_one: "toFixed ts 2 (Fin (- 1)) = Inr ''-1.00''"
  by (simp add: toFixed_def point_digits_def Let_def digits.simps)

lemma toFixed_minus_400: "toFixed ts 2 (Fin (- 400)) = Inr ''-400.00''"
  by (simp add: toFixed_def point_digits_def Let_def digits.simps)

text \<open>
  C4, as the claim states it, fails: a principal below zero, a rate below zero and a
  term below zero each give a string with a negative payment, and no error.
\<close>

theorem invalid_input_counterexample:
  "\<forall>ts s.
     calculateInterestOnlyLoanPayment ts \<lparr>principle = Fin (- 1200), interest = Fin 1\<rparr> s =
       (Inr ''The interest only loan payment is -1.00'', s) \<and>
     calculateInterestOnlyLoanPayment ts \<lparr>principle = Fin 1200, interest = Fin (- 1)\<rparr> s =
       (Inr ''The interest only loan payment is -1.00'', s) \<and>
     calculateConventionalLoanPayment ts
         \<lparr>principle = Fin 1200, interest = Fin 1200, months = Fin (- 2)\<rparr> s =
       (Inr ''The conventional loan payment is -400.00'', s)"
proof -
  have a: "interestOnly_payment \<lparr>principle = Fin (- 1200), interest = Fin 1\<rparr> = Fin (- 1)"
    by (simp add: interestOnly_payment_def rate_1 interest_neg1200_1)
  have b: "interestOnly_payment \<lparr>principle = Fin 1200, interest = Fin (- 1)\<rparr> = Fin (- 1)"
    by (simp add: interestOnly_payment_def rate_neg1 interest_1200_neg1)
  have c: "conventional_payment
             \<lparr>principle = Fin 1200, interest = Fin 1200, months = Fin (- 2)\<rparr> = Fin (- 400)"
    by (simp add: conventional_payment_def Let_def rate_1200 numerator_1200_1 one_plus_one
          one_half half_to_minus_2 one_minus_four payment_neg400)
  show ?thesis
    by (simp add: calculateInterestOnlyLoanPayment_def calculateConventionalLoanPayment_def
          a b c toFixed_minus_one toFixed_minus_400)
qed

text \<open>
  C4, amended. Neither function checks its input and neither raises an error: for every
  input, also one with a principal of zero or less, a rate below zero or a term of zero
  or less, each function returns its label followed by \<open>toFixed(2)\<close> of the payment its
  formula gives.
\<close>

theorem no_input_is_rejected:
  "(\<exists>t. calculateInterestOnlyLoanPayment ts loan s =
          (Inr (''The interest only loan payment is '' @ t), s) \<and>
        toFixed ts 2
          (multiply (principle loan) (divide_num (Loan.interest loan) (Fin 1200))) = Inr t) \<and>
   (\<exists>t. calculateConventionalLoanPayment ts cloan s =
          (Inr (''The conventional loan payment is '' @ t), s) \<and>
        toFixed ts 2
          (divide_num (multiply (principle cloan) (divide_num (Loan.interest cloan) (Fin 1200)))
             (subtract (Fin 1)
                (pow (divide_num (Fin 1)
                        (add (Fin 1) (divide_num (Loan.interest cloan) (Fin 1200))))
                   (months cloan)))) = Inr t)"
proof -
  have a: "interestOnly_payment loan =
      multiply (principle loan) (divide_num (Loan.interest loan) (Fin 1200))"
    by (simp only: interestOnly_payment_def Let_def)
  have b: "conventional_payment cloan =
      divide_num (multiply (principle cloan) (divide_num (Loan.interest cloan) (Fin 1200)))
        (subtract (Fin 1)
           (pow (divide_num (Fin 1) (add (Fin 1) (divide_num (Loan.interest cloan) (Fin 1200))))
              (months cloan)))"
    by (simp only: conventional_payment_def Let_def)
  show ?thesis
    using calculateInterestOnlyLoanPayment_returns [of ts loan s]
      calculateConventionalLoanPayment_returns [of ts cloan s]
    by (simp only: a b)
qed

text \<open>
  C8. Both functions are pure and deterministic: the result of a call depends on the
  argument only, not on the state of the module in which the call is made, and the call
  leaves that state as it was.
\<close>

theorem functions_are_pure:
  "fst (calculateInterestOnlyLoanPayment ts loan s) =
     fst (calculateInterestOnlyLoanPayment ts loan s') \<and>
   snd (calculateInterestOnlyLoanPayment ts loan s) = s \<and>
   fst (calculateConventionalLoanPayment ts cloan s) =
     fst (calculateConventionalLoanPayment ts cloan s') \<and>
   snd (calculateConventionalLoanPayment ts cloan s) = s"
  by (simp add: calculateInterestOnlyLoanPayment_def calculateConventionalLoanPayment_def
        split: sum.split)

section \<open>The strings of toFixed\<close>



lemma digits_nonempty: "digits n \<noteq> []"
  by (subst digits.simps) simp






lemma toFixed_2_finite:
  assumes "is_finite x" and "\<bar>val x\<bar> < 10 ^ 21"
  shows "toFixed ts 2 x =
           Inr ((if val x < 0 then ''-'' else []) @
                point_digits 2 (nat \<lfloor>\<bar>val x\<bar> * 100 + 1 / 2\<rfloor>))"
  using assms by (simp add: toFixed_def Let_def abs_if)


text \<open>
  The integer that \<open>toFixed\<close> takes, the floor of the scaled value plus one half, is an
  integer nearest to the scaled value, and the larger one where two are equally near.
\<close>

lemma toFixed_nearest:
  fixes y :: real
  shows "\<bar>of_int \<lfloor>y + 1 / 2\<rfloor> - y\<bar> \<le> \<bar>of_int k - y\<bar>"
proof -
  define n where "n = \<lfloor>y + 1 / 2\<rfloor>"
  have n: "of_int n \<le> y + 1 / 2" "y + 1 / 2 < of_int n + 1"
    unfolding n_def by linarith+
  consider "k + 1 \<le> n" | "k = n" | "n + 1 \<le> k" by linarith
  then have "\<bar>of_int n - y\<bar> \<le> \<bar>of_int k - y\<bar>"
  proof cases
    case 1
    then have "(of_int (k + 1) :: real) \<le> of_int n" by (simp only: of_int_le_iff)
    then show ?thesis using n by simp
  next
    case 2
    then show ?thesis by simp
  next
    case 3
    then have "(of_int (n + 1) :: real) \<le> of_int k" by (simp only: of_int_le_iff)
    then show ?thesis using n by simp
  qed
  then show ?thesis by (simp only: n_def)
qed

lemma toFixed_nearest_larger:
  fixes y :: real
  assumes "\<bar>of_int k - y\<bar> = \<bar>of_int \<lfloor>y + 1 / 2\<rfloor> - y\<bar>"
  shows "k \<le> \<lfloor>y + 1 / 2\<rfloor>"
proof (rule ccontr)
  define n where "n = \<lfloor>y + 1 / 2\<rfloor>"
  have n: "of_int n \<le> y + 1 / 2" "y + 1 / 2 < of_int n + 1"
    unfolding n_def by linarith+
  assume "\<not> k \<le> \<lfloor>y + 1 / 2\<rfloor>"
  then have "n + 1 \<le> k" by (simp add: n_def)
  then have "(of_int (n + 1) :: real) \<le> of_int k" by (simp only: of_int_le_iff)
  then have "\<bar>of_int n - y\<bar> < \<bar>of_int k - y\<bar>" using n by simp
  then show False using assms by (simp add: n_def)
qed















section \<open>The two calls of the script\<close>

lemma interestOnly_payment_30000_5:
  "interestOnly_payment \<lparr>principle = Fin 30000, interest = Fin 5\<rparr> = Fin 125"
  by (simp add: interestOnly_payment_def rate_5 interest_30000_5)

lemma toFixed_125: "toFixed ts 2 (Fin 125) = Inr ''125.00''"
  by (simp add: toFixed_def point_digits_def Let_def digits.simps)

lemma interestOnly_call:
  "calculateInterestOnlyLoanPayment ts \<lparr>principle = Fin 30000, interest = Fin 5\<rparr> s =
     (Inr ''The interest only loan payment is 125.00'', s)"
  by (simp add: calculateInterestOnlyLoanPayment_def interestOnly_payment_30000_5 toFixed_125)

lemma discount_180:
  shows "(47310 / 100000 :: real) < (240 / 241) ^ 180"
    and "((240 / 241) ^ 180 :: real) < 47311 / 100000"
  by (simp_all add: power_divide)

lemma payment_180_bounds:
  fixes x q :: real
  assumes "x = 125 / (1 - q)" and "47310 / 100000 < q" and "q < 47311 / 100000"
  shows "237236 / 1000 < x" and "x < 237244 / 1000"
proof -
  note q = assms(2,3)
  have nz: "1 - q \<noteq> 0" using q by simp
  have x: "x * (1 - q) = 125"
    using nonzero_eq_divide_eq [OF nz, of x 125] assms(1) by blast
  have pos: "0 \<le> 1 - q" using q by simp
  show "237236 / 1000 < x"
  proof (rule ccontr)
    assume "\<not> 237236 / 1000 < x"
    then have le: "x \<le> 237236 / 1000" by simp
    have "x * (1 - q) \<le> 237236 / 1000 * (1 - q)" by (rule mult_right_mono [OF le pos])
    then have "125 \<le> 237236 / 1000 * (1 - q)" by (simp only: x)
    then show False using q by simp
  qed
  show "x < 237244 / 1000"
  proof (rule ccontr)
    assume "\<not> x < 237244 / 1000"
    then have le: "237244 / 1000 \<le> x" by simp
    have "237244 / 1000 * (1 - q) \<le> x * (1 - q)" by (rule mult_right_mono [OF le pos])
    then have "237244 / 1000 * (1 - q) \<le> 125" by (simp only: x)
    then show False using q by simp
  qed
qed

text \<open>
  The payment of the script's second call: the amortized payment of the specification
  is 125 over one minus \<open>240 / 241\<close> to the power 180, between 237.236 and 237.244, and
  the rounded computation stays within \<open>2\<close> to the -29 of it.
\<close>

lemma conventional_payment_30000_5_180:
  "\<exists>x. conventional_payment \<lparr>principle = Fin 30000, interest = Fin 5, months = Fin 180\<rparr>
          = Fin x \<and> 237235 / 1000 < x \<and> x < 237245 / 1000"
proof -
  define Q :: real where "Q = (240 / 241) ^ 180"
  define V where "V = spec_amortizedPayment 30000 5 180"
  define H :: real where "H = 1 / 2 ^ 30 + 4 / 2 ^ 53"
  have Q: "47310 / 100000 < Q" "Q < 47311 / 100000"
    unfolding Q_def by (rule discount_180)+
  have a: "(1 / (1 + 1 / 240 :: real)) ^ nat 180 = (1 + 1 / 240) powi (- 180)"
    by (rule discount_powi) simp_all
  have b: "(1 + 1 / 240 :: real) = 241 / 240" "(1 / (241 / 240) :: real) = 240 / 241"
      "nat 180 = 180"
    by simp_all
  have pw: "(241 / 240 :: real) powi (- 180) = Q"
    using a unfolding b Q_def by (rule sym)
  have c: "(1 + 5 / 1200 :: real) = 241 / 240" "(30000 * (5 / 1200) :: real) = 125" by simp_all
  have D: "1 / 2 ^ 10 \<le> 1 - (1 + 5 / 1200 :: real) powi (- 180)"
    using Q(2) by (simp only: c pw) simp
  have V: "V = 125 / (1 - Q)"
    by (simp only: V_def spec_amortizedPayment_def Let_def c pw)
  note Vb = payment_180_bounds [OF V Q]
  obtain v where v: "conventional_payment
        \<lparr>principle = Fin 30000, interest = Fin 5, months = Fin 180\<rparr> = Fin v"
      "rel_err H V v"
    using conventional_payment_error
      [of "\<lparr>principle = Fin 30000, interest = Fin 5, months = Fin 180\<rparr>" 30000 5 180] D
    unfolding V_def H_def by auto
  have r: "V * (1 - H) \<le> v" "v * (1 - H) \<le> V" using v(2) by (simp_all add: rel_err_def)
  have H: "0 \<le> 1 - H" by (simp add: H_def)
  have "237236 / 1000 * (1 - H) \<le> V * (1 - H)"
    using Vb(1) H by (intro mult_right_mono) simp_all
  moreover have "237235 / 1000 < 237236 / 1000 * (1 - H)" by (simp add: H_def)
  ultimately have lo: "237235 / 1000 < v" using r(1) by simp
  have hi: "v < 237245 / 1000"
  proof (rule ccontr)
    assume "\<not> v < 237245 / 1000"
    then have "237245 / 1000 * (1 - H) \<le> v * (1 - H)"
      using H by (intro mult_right_mono) simp_all
    moreover have "237244 / 1000 < 237245 / 1000 * (1 - H)" by (simp add: H_def)
    ultimately show False using r(2) Vb(2) by simp
  qed
  show ?thesis using v(1) lo hi by blast
qed

lemma toFixed_payment_180:
  fixes x :: real
  assumes "237235 / 1000 < x" and "x < 237245 / 1000"
  shows "toFixed ts 2 (Fin x) = Inr ''237.24''"
proof -
  have fl: "\<lfloor>x * 100 + 1 / 2\<rfloor> = 23724"
    using assms by (simp add: floor_eq_iff)
  have ab: "\<bar>x\<bar> = x" "\<not> x < 0" "\<bar>x\<bar> < 10 ^ 21" using assms by simp_all
  have pd: "point_digits 2 23724 = ''237.24''"
    by (simp add: point_digits_def Let_def digits.simps)
  have "toFixed ts 2 (Fin x) = Inr ([] @ point_digits 2 (nat \<lfloor>x * 100 + 1 / 2\<rfloor>))"
    using toFixed_2_finite [of "Fin x" ts] ab by simp
  then show ?thesis by (simp add: fl pd)
qed

lemma conventional_call:
  "calculateConventionalLoanPayment ts
       \<lparr>principle = Fin 30000, interest = Fin 5, months = Fin 180\<rparr> s =
     (Inr ''The conventional loan payment is 237.24'', s)"
proof -
  obtain x where x: "conventional_payment
        \<lparr>principle = Fin 30000, interest = Fin 5, months = Fin 180\<rparr> = Fin x"
      "237235 / 1000 < x" "x < 237245 / 1000"
    using conventional_payment_30000_5_180 by blast
  show ?thesis
    by (simp only: calculateConventionalLoanPayment_def x(1)
          toFixed_payment_180 [OF x(2,3)] sum.case append.simps)
qed

text \<open>The script runs without an error and logs the two lines its comments give.\<close>

lemma module03_run:
  "module03 ts initial_state =
     (Inr (),
      \<lparr>interestOnlyPayment = Some ''The interest only loan payment is 125.00'',
       conventionalPayment = Some ''The conventional loan payment is 237.24'',
       console = [''The interest only loan payment is 125.00'',
                  ''The conventional loan payment is 237.24'']\<rparr>)"
  by (simp add: module03_def interestOnly_call conventional_call console_log_def
        initial_state_def)

text \<open>
  C5. For a principal of 30000 at 5 percent the interest-only payment is 125, the
  function returns "The interest only loan payment is 125.00", and that is what the script
  keeps in \<open>interestOnlyPayment\<close> and logs first.
\<close>

theorem interest_only_example:
  "interestOnly_payment \<lparr>principle = Fin 30000, interest = Fin 5\<rparr> = Fin 125 \<and>
   calculateInterestOnlyLoanPayment ts \<lparr>principle = Fin 30000, interest = Fin 5\<rparr> s =
     (Inr ''The interest only loan payment is 125.00'', s) \<and>
   interestOnlyPayment (snd (module03 ts initial_state)) =
     Some ''The interest only loan payment is 125.00'' \<and>
   hd (console (snd (module03 ts initial_state))) =
     ''The interest only loan payment is 125.00''"
  by (simp add: interestOnly_payment_30000_5 interestOnly_call module03_run)

text \<open>
  C6. For a principal of 30000 at 5 percent over 180 months the conventional payment lies
  between 237.235 and 237.245, so that it is 237.24 at two decimal places: the function
  returns "The conventional loan payment is 237.24", and that is what the script keeps
  in \<open>conventionalPayment\<close> and logs last.
\<close>

theorem conventional_example:
  "(\<exists>x. conventional_payment
           \<lparr>principle = Fin 30000, interest = Fin 5, months = Fin 180\<rparr> = Fin x \<and>
        237235 / 1000 < x \<and> x < 237245 / 1000) \<and>
   calculateConventionalLoanPayment ts
       \<lparr>principle = Fin 30000, interest = Fin 5, months = Fin 180\<rparr> s =
     (Inr ''The conventional loan payment is 237.24'', s) \<and>
   conventionalPayment (snd (module03 ts initial_state)) =
     Some ''The conventional loan payment is 237.24'' \<and>
   last (console (snd (module03 ts initial_state))) =
     ''The conventional loan payment is 237.24''"
  using conventional_payment_30000_5_180
  by (simp add: conventional_call module03_run)

end
